theory Spec2Isabelle
  imports Complex_Main "HOL-Library.Sublist" "HOL-Library.Char_ord" "HOL-Library.List_Lexorder"
begin

section \<open>Python strings\<close>

text \<open>
  A string is the list of its characters, each a code point below 256 (Latin-1; code points
  beyond are outside the model). \<open>str.strip\<close> removes Python's whitespace from both ends:
  the code points 0x09-0x0D, 0x1C-0x20, 0x85 and 0xA0. \<open>str.lower\<close> maps \<open>A\<close>-\<open>Z\<close> and
  the capital letters 0xC0-0xDE (but 0xD7, the multiplication sign) to the letter 32 above.
\<close>

definition is_space :: "char \<Rightarrow> bool" where
  "is_space c = (let n = (of_char c :: nat) in
       (9 \<le> n \<and> n \<le> 13) \<or> (28 \<le> n \<and> n \<le> 32) \<or> n = 133 \<or> n = 160)"

definition strip :: "string \<Rightarrow> string" where
  "strip s = rev (dropWhile is_space (rev (dropWhile is_space s)))"

definition lower_char :: "char \<Rightarrow> char" where
  "lower_char c = (let n = (of_char c :: nat) in
       if (65 \<le> n \<and> n \<le> 90) \<or> (192 \<le> n \<and> n \<le> 222 \<and> n \<noteq> 215) then char_of (n + 32) else c)"

definition lower :: "string \<Rightarrow> string" where
  "lower s = map lower_char s"

text \<open>\<open>sub in s\<close>: \<open>sub\<close> occurs in \<open>s\<close> as a contiguous substring.\<close>

fun contains_str :: "string \<Rightarrow> string \<Rightarrow> bool" where
  "contains_str sub [] = (sub = [])"
| "contains_str sub (c # cs) = (prefix sub (c # cs) \<or> contains_str sub cs)"

text \<open>\<open>s.split(sep, 1)\<close> for a separator that occurs in \<open>s\<close>: the text before and after
  its first occurrence; \<open>None\<close> when \<open>sep\<close> does not occur.\<close>

fun split1 :: "string \<Rightarrow> string \<Rightarrow> (string \<times> string) option" where
  "split1 sep [] = (if sep = [] then Some ([], []) else None)"
| "split1 sep (c # cs) =
     (if prefix sep (c # cs) then Some ([], drop (length sep) (c # cs))
      else map_option (\<lambda>(a, b). (c # a, b)) (split1 sep cs))"

text \<open>\<open>s.split(",")\<close>: all the fields between occurrences of one character.\<close>

fun split_on :: "char \<Rightarrow> string \<Rightarrow> string list" where
  "split_on d [] = [[]]"
| "split_on d (c # cs) =
     (if c = d then [] # split_on d cs
      else (case split_on d cs of w # ws \<Rightarrow> (c # w) # ws | [] \<Rightarrow> [[c]]))"

section \<open>Values\<close>

text \<open>
  A floating-point number is either NaN or a finite number, given by the rational it
  denotes: numbers are compared exactly, rounding and overflow are left out.
  A scalar is what a cell of a table or a literal of a condition holds. A missing cell is
  \<open>PNone\<close> or \<open>PFloat NaN\<close>.
\<close>

datatype pynum = NaN | Num rat

datatype pyval = PNone | PBool bool | PInt int | PFloat pynum | PStr string

text \<open>
  The library functions whose exact behaviour on text lies outside the repository are
  parameters of the model: Python's \<open>int(s)\<close> and \<open>float(s)\<close> (\<open>None\<close> is ValueError),
  the number that \<open>pandas.to_numeric(errors="coerce")\<close> reads from a text cell (NaN when
  it reads none), \<open>str\<close> of a finite float, and the case-insensitive regular-expression
  search of \<open>Series.str.contains\<close> for patterns that hold a metacharacter (the compiled
  pattern as a predicate on texts; \<open>None\<close> is \<open>re.error\<close>).
\<close>

record pylib =
  py_int :: "string \<Rightarrow> int option"
  py_float :: "string \<Rightarrow> pynum option"
  pd_numeric :: "string \<Rightarrow> pynum"
  float_str :: "rat \<Rightarrow> string"
  re_search :: "string \<Rightarrow> (string \<Rightarrow> bool) option"

section \<open>Value coercion: \<open>coerce_value\<close> (milestone 3), \<open>to_val\<close> (milestone 4)\<close>

definition is_quoted :: "string \<Rightarrow> bool" where
  "is_quoted s = (length s \<ge> 2 \<and> hd s = last s \<and> (hd s = CHR 0x27 \<or> hd s = CHR 0x22))"

definition py_number :: "pylib \<Rightarrow> string \<Rightarrow> pyval option" where
  "py_number L s =
     (if CHR ''.'' \<in> set s then map_option PFloat (py_float L s)
      else map_option PInt (py_int L s))"

definition to_val :: "pylib \<Rightarrow> string \<Rightarrow> pyval" where
  "to_val L s0 =
     (let s = strip s0 in
      if is_quoted s then PStr (butlast (tl s))
      else let low = lower s in
        if low = ''none'' \<or> low = ''null'' then PNone
        else if low = ''true'' \<or> low = ''false'' then PBool (low = ''true'')
        else (case py_number L s of Some v \<Rightarrow> v | None \<Rightarrow> PStr s))"

definition coerce_value :: "pylib \<Rightarrow> string \<Rightarrow> pyval" where
  "coerce_value L text = to_val L text"

section \<open>Condition parser: \<open>parse_condition\<close> (milestone 3), \<open>parse_cond\<close> (milestone 4)\<close>

datatype cmp_op = Eq | Ne | Ge | Le | Gt | Lt | Contains

fun op_text :: "cmp_op \<Rightarrow> string" where
  "op_text Eq = ''==''"
| "op_text Ne = ''!=''"
| "op_text Ge = ''>=''"
| "op_text Le = ''<=''"
| "op_text Gt = ''>''"
| "op_text Lt = ''<''"
| "op_text Contains = ''~''"

definition OPS :: "cmp_op list" where
  "OPS = [Eq, Ne, Ge, Le, Gt, Lt, Contains]"

datatype error =
    EmptyExpression
  | MissingColumn
  | MissingValue
  | BadCondition string
  | UnknownColumn string
  | SortUsage
  | BadOrder
  | TypeError
  | IndexError
  | KeyError string
  | ZeroDivisionError
  | RegexError

text \<open>The loop \<open>for op in OPS: if op in tok: L, R = tok.split(op, 1)\<close>: the first operator
  of the list that occurs in the token, with the text on both sides of its first occurrence.\<close>

fun find_op :: "cmp_op list \<Rightarrow> string \<Rightarrow> (cmp_op \<times> string \<times> string) option" where
  "find_op [] tok = None"
| "find_op (op # ops) tok =
     (case split1 (op_text op) tok of
        Some (l, r) \<Rightarrow> Some (op, l, r)
      | None \<Rightarrow> find_op ops tok)"

definition parse_cond :: "pylib \<Rightarrow> string \<Rightarrow> error + (string \<times> cmp_op \<times> pyval)" where
  "parse_cond L tok =
     (case find_op OPS tok of
        None \<Rightarrow> Inl (BadCondition tok)
      | Some (op, l, r) \<Rightarrow>
          (let l' = strip l; r' = strip r in
           if l' = [] then Inl MissingColumn
           else if op \<noteq> Contains \<and> r' = [] then Inl MissingValue
           else Inr (l', op, to_val L r')))"

definition parse_condition :: "pylib \<Rightarrow> string \<Rightarrow> error + (string \<times> cmp_op \<times> pyval)" where
  "parse_condition L token =
     (let tok = strip token in
      case find_op OPS tok of
        None \<Rightarrow> Inl (BadCondition tok)
      | Some (op, l, r) \<Rightarrow>
          (let l' = strip l; r' = strip r in
           if l' = [] then Inl MissingColumn
           else if op \<noteq> Contains \<and> r' = [] then Inl MissingValue
           else Inr (l', op, coerce_value L r')))"

section \<open>Tables\<close>

text \<open>
  A table (a pandas DataFrame) is its column names and its rows in order, each row the
  list of its cells in column order. A row shorter than the header reads as NaN beyond
  its end, as pandas fills missing fields. \<open>df[col]\<close> is KeyError for an unknown name;
  column names are taken to be unique, the first match is read.
\<close>

record frame =
  columns :: "string list"
  rows :: "pyval list list"

definition cell_at :: "pyval list \<Rightarrow> nat \<Rightarrow> pyval" where
  "cell_at r j = (if j < length r then r ! j else PFloat NaN)"

fun col_index :: "string list \<Rightarrow> string \<Rightarrow> nat option" where
  "col_index [] c = None"
| "col_index (x # xs) c = (if x = c then Some 0 else map_option Suc (col_index xs c))"

definition series :: "frame \<Rightarrow> string \<Rightarrow> pyval list option" where
  "series df col = map_option (\<lambda>j. map (\<lambda>r. cell_at r j) (rows df)) (col_index (columns df) col)"

text \<open>\<open>df[mask]\<close>: the rows whose mask entry is true, in order, with the same columns.\<close>

definition select_rows :: "frame \<Rightarrow> bool list \<Rightarrow> frame" where
  "select_rows df msk = df\<lparr>rows := map fst (filter snd (zip (rows df) msk))\<rparr>"

section \<open>pandas and Python primitives on scalars\<close>

text \<open>\<open>str(x)\<close>, which is also what \<open>Series.astype(str)\<close> makes of each cell of a column
  read by pandas 1 or 2 (numeric or object dtype): a missing cell becomes the text
  \<open>None\<close> or \<open>nan\<close>, so that no missing value is left in the converted column.\<close>

definition digit_char :: "nat \<Rightarrow> char" where
  "digit_char d = ''0123456789'' ! d"

fun nat_str :: "nat \<Rightarrow> string" where
  "nat_str n = (if n < 10 then [digit_char n] else nat_str (n div 10) @ [digit_char (n mod 10)])"

declare nat_str.simps [simp del]

definition int_str :: "int \<Rightarrow> string" where
  "int_str k = (if k < 0 then CHR ''-'' # nat_str (nat (- k)) else nat_str (nat k))"

fun py_str :: "pylib \<Rightarrow> pyval \<Rightarrow> string" where
  "py_str L PNone = ''None''"
| "py_str L (PBool b) = (if b then ''True'' else ''False'')"
| "py_str L (PInt k) = int_str k"
| "py_str L (PFloat NaN) = ''nan''"
| "py_str L (PFloat (Num q)) = float_str L q"
| "py_str L (PStr s) = s"

definition astype_str :: "pylib \<Rightarrow> pyval list \<Rightarrow> string list" where
  "astype_str L s = map (py_str L) s"

text \<open>The number a numeric scalar stands for (\<open>bool\<close> is a subclass of \<open>int\<close>), and
  \<open>isinstance(val, (int, float))\<close>.\<close>

fun num_of :: "pyval \<Rightarrow> pynum" where
  "num_of (PBool b) = Num (if b then 1 else 0)"
| "num_of (PInt k) = Num (of_int k)"
| "num_of (PFloat f) = f"
| "num_of PNone = NaN"
| "num_of (PStr s) = NaN"

fun is_number :: "pyval \<Rightarrow> bool" where
  "is_number (PBool b) = True"
| "is_number (PInt k) = True"
| "is_number (PFloat f) = True"
| "is_number PNone = False"
| "is_number (PStr s) = False"

text \<open>\<open>pd.api.types.is_numeric_dtype(s)\<close>: the column holds numbers only (integer, float
  and boolean columns). \<open>pd.to_numeric(s, errors="coerce")\<close> reads a number from every cell,
  NaN where there is none.\<close>

definition is_numeric_dtype :: "pyval list \<Rightarrow> bool" where
  "is_numeric_dtype s = list_all is_number s"

definition to_num :: "pylib \<Rightarrow> pyval \<Rightarrow> pynum" where
  "to_num L c = (case c of PStr t \<Rightarrow> pd_numeric L t | _ \<Rightarrow> num_of c)"

definition to_numeric :: "pylib \<Rightarrow> pyval list \<Rightarrow> pynum list" where
  "to_numeric L s = map (to_num L) s"

text \<open>The six comparisons on an ordered type, and on numbers, where every comparison with
  NaN is false except \<open>!=\<close>, which is true.\<close>

fun cmp_with :: "cmp_op \<Rightarrow> 'a::linorder \<Rightarrow> 'a \<Rightarrow> bool" where
  "cmp_with Eq a b = (a = b)"
| "cmp_with Ne a b = (a \<noteq> b)"
| "cmp_with Gt a b = (a > b)"
| "cmp_with Ge a b = (a \<ge> b)"
| "cmp_with Lt a b = (a < b)"
| "cmp_with Le a b = (a \<le> b)"
| "cmp_with Contains a b = False"

fun num_cmp :: "cmp_op \<Rightarrow> pynum \<Rightarrow> pynum \<Rightarrow> bool" where
  "num_cmp op (Num a) (Num b) = cmp_with op a b"
| "num_cmp op NaN y = (op = Ne)"
| "num_cmp op x NaN = (op = Ne)"

text \<open>
  \<open>s.str.contains(pat, case=False, na=False)\<close> on a column of texts. The pattern is a
  regular expression (\<open>regex=True\<close> is the default): one without metacharacters matches
  where it occurs literally, letter case ignored; any other is compiled by the library.
\<close>

definition regex_meta :: "char list" where
  "regex_meta = CHR 0x5C # ''.^$*+?{}[]|()''"

definition str_contains :: "pylib \<Rightarrow> string \<Rightarrow> string list \<Rightarrow> error + bool list" where
  "str_contains L pat s =
     (if list_all (\<lambda>c. c \<notin> set regex_meta) pat
      then Inr (map (\<lambda>t. contains_str (lower pat) (lower t)) s)
      else (case re_search L pat of None \<Rightarrow> Inl RegexError | Some f \<Rightarrow> Inr (map f s)))"

section \<open>Expression evaluator: \<open>apply_condition\<close> (milestone 3), \<open>mask_for\<close> (milestone 4)\<close>

definition mask_for :: "pylib \<Rightarrow> frame \<Rightarrow> string \<Rightarrow> cmp_op \<Rightarrow> pyval \<Rightarrow> error + bool list" where
  "mask_for L df col op val =
     (case series df col of
        None \<Rightarrow> Inl (KeyError col)
      | Some s \<Rightarrow>
          if op = Contains then str_contains L (py_str L val) (astype_str L s)
          else if is_number val then
            (let left = (if is_numeric_dtype s then map num_of s else to_numeric L s);
                 right = num_of val
             in Inr (map (\<lambda>x. num_cmp op x right) left))
          else
            (let left = astype_str L s; right = py_str L val
             in Inr (map (\<lambda>x. cmp_with op x right) left)))"

text \<open>In \<open>apply_condition\<close> the column is always made numeric, so the test
  \<open>is_numeric_dtype(left)\<close> that guards the second parse of a text value is always true.
  A value that is still text after the parse ends the function with an all-false mask.
  pandas compares a column with \<open>None\<close> elementwise without raising: \<open>!=\<close> is true everywhere,
  the other five comparisons are false everywhere.\<close>

definition compare_scalar :: "cmp_op \<Rightarrow> pynum list \<Rightarrow> pyval \<Rightarrow> error + bool list" where
  "compare_scalar op left right =
     (if right = PNone then Inr (map (\<lambda>x. op = Ne) left)
      else Inr (map (\<lambda>x. num_cmp op x (num_of right)) left))"

definition apply_condition :: "pylib \<Rightarrow> frame \<Rightarrow> string \<Rightarrow> cmp_op \<Rightarrow> pyval \<Rightarrow> error + bool list" where
  "apply_condition L df col op val =
     (case series df col of
        None \<Rightarrow> Inl (KeyError col)
      | Some s \<Rightarrow>
          if op = Contains then str_contains L (py_str L val) (astype_str L s)
          else
            (let left = (if is_numeric_dtype s then map num_of s else to_numeric L s) in
             case val of
               PStr t \<Rightarrow>
                 (case py_number L t of
                    None \<Rightarrow> Inr (replicate (length (rows df)) False)
                  | Some right \<Rightarrow> compare_scalar op left right)
             | _ \<Rightarrow> compare_scalar op left val))"

section \<open>Filter engine: \<open>run_filter\<close>\<close>

text \<open>\<open>{c.lower(): c for c in df.columns}\<close>: of two columns with the same lowercased name
  the later one is kept.\<close>

definition cmap :: "string list \<Rightarrow> (string \<rightharpoonup> string)" where
  "cmap cs = map_of (rev (map (\<lambda>c. (lower c, c)) cs))"

definition column_map :: "string list \<Rightarrow> (string \<rightharpoonup> string)" where
  "column_map cs = cmap cs"

definition tokens_of :: "string \<Rightarrow> string list" where
  "tokens_of expr = filter (\<lambda>t. t \<noteq> []) (map strip (split_on CHR '','' expr))"

text \<open>The body of the loop over the tokens, the same in both milestones but for the parser
  and the evaluator it calls: parse the token, resolve the column through the map, compute
  the mask. The loop is \<open>mask &= ...\<close> for each token in turn; the first failure ends it.\<close>

definition cond_mask ::
  "(string \<Rightarrow> error + (string \<times> cmp_op \<times> pyval)) \<Rightarrow> (string \<Rightarrow> cmp_op \<Rightarrow> pyval \<Rightarrow> error + bool list)
     \<Rightarrow> (string \<rightharpoonup> string) \<Rightarrow> string \<Rightarrow> error + bool list" where
  "cond_mask parse ev m t =
     (case parse t of
        Inl e \<Rightarrow> Inl e
      | Inr (col_raw, op, val) \<Rightarrow>
          (case m (lower col_raw) of
             None \<Rightarrow> Inl (UnknownColumn col_raw)
           | Some col \<Rightarrow> ev col op val))"

fun and_masks :: "(string \<Rightarrow> error + bool list) \<Rightarrow> string list \<Rightarrow> bool list \<Rightarrow> error + bool list" where
  "and_masks cm [] msk = Inr msk"
| "and_masks cm (t # ts) msk =
     (case cm t of
        Inl e \<Rightarrow> Inl e
      | Inr mk \<Rightarrow> and_masks cm ts (map2 (\<and>) msk mk))"

definition run_filter :: "pylib \<Rightarrow> frame \<Rightarrow> string \<Rightarrow> error + frame" where
  "run_filter L df expr =
     (let tokens = tokens_of expr;
          m = cmap (columns df);
          msk = replicate (length (rows df)) True
      in case and_masks (cond_mask (parse_cond L) (mask_for L df) m) tokens msk of
           Inl e \<Rightarrow> Inl e
         | Inr msk' \<Rightarrow> Inr (select_rows df msk'))"

definition run_filter_m3 :: "pylib \<Rightarrow> frame \<Rightarrow> string \<Rightarrow> error + frame" where
  "run_filter_m3 L df expr =
     (if strip expr = [] then Inl EmptyExpression
      else
        (let m = column_map (columns df);
             tokens = tokens_of expr;
             msk = replicate (length (rows df)) True
         in case and_masks (cond_mask (parse_condition L) (apply_condition L df) m) tokens msk of
              Inl e \<Rightarrow> Inl e
            | Inr msk' \<Rightarrow> Inr (select_rows df msk')))"

section \<open>Sort engine: \<open>run_sort\<close>\<close>

text \<open>
  \<open>df.sort_values(by=[col], ascending=..., kind="mergesort")\<close>. pandas sets the rows with a
  missing key aside and puts them last in their original order (\<open>na_position="last"\<close>);
  the other rows are ordered by a merge sort of their keys. For a descending sort it
  reverses the rows, sorts them ascending and reverses the result. The merge sort is
  top-down; on a tie the merge takes from the left run.
\<close>

fun merge_key :: "('a \<Rightarrow> 'k::linorder) \<Rightarrow> 'a list \<Rightarrow> 'a list \<Rightarrow> 'a list" where
  "merge_key f [] ys = ys"
| "merge_key f (x # xs) [] = x # xs"
| "merge_key f (x # xs) (y # ys) =
     (if f y < f x then y # merge_key f (x # xs) ys else x # merge_key f xs (y # ys))"

function msort_key :: "('a \<Rightarrow> 'k::linorder) \<Rightarrow> 'a list \<Rightarrow> 'a list" where
  "msort_key f xs =
     (if length xs \<le> 1 then xs
      else merge_key f (msort_key f (take (length xs div 2) xs))
                       (msort_key f (drop (length xs div 2) xs)))"
  by pat_completeness auto
termination
  by (relation "measure (\<lambda>(f, xs). length xs)") auto

declare msort_key.simps [simp del]

definition order_by :: "('a \<Rightarrow> 'k::linorder) \<Rightarrow> bool \<Rightarrow> 'a list \<Rightarrow> 'a list" where
  "order_by f ascending xs = (if ascending then msort_key f xs else rev (msort_key f (rev xs)))"

text \<open>Keys: a missing cell has none; numbers are ordered by value (\<open>True\<close> is 1), texts
  lexicographically by character code. A column that mixes numbers and texts cannot be
  ordered: Python raises TypeError on the first comparison between them.\<close>

definition is_missing :: "pyval \<Rightarrow> bool" where
  "is_missing c = (c = PNone \<or> c = PFloat NaN)"

fun num_key :: "pyval \<Rightarrow> rat" where
  "num_key (PBool b) = (if b then 1 else 0)"
| "num_key (PInt k) = of_int k"
| "num_key (PFloat (Num q)) = q"
| "num_key c = 0"

fun text_key :: "pyval \<Rightarrow> string" where
  "text_key (PStr s) = s"
| "text_key c = []"

fun is_text :: "pyval \<Rightarrow> bool" where
  "is_text (PStr s) = True"
| "is_text c = False"

definition sort_values :: "frame \<Rightarrow> string \<Rightarrow> bool \<Rightarrow> error + frame" where
  "sort_values df col ascending =
     (case col_index (columns df) col of
        None \<Rightarrow> Inl (KeyError col)
      | Some j \<Rightarrow>
          (let present = filter (\<lambda>r. \<not> is_missing (cell_at r j)) (rows df);
               missing = filter (\<lambda>r. is_missing (cell_at r j)) (rows df)
           in if list_all (\<lambda>r. is_number (cell_at r j)) present
              then Inr (df\<lparr>rows := order_by (\<lambda>r. num_key (cell_at r j)) ascending present @ missing\<rparr>)
              else if list_all (\<lambda>r. is_text (cell_at r j)) present
              then Inr (df\<lparr>rows := order_by (\<lambda>r. text_key (cell_at r j)) ascending present @ missing\<rparr>)
              else Inl TypeError))"

definition run_sort :: "frame \<Rightarrow> string \<Rightarrow> error + frame" where
  "run_sort df expr =
     (let parts = tokens_of expr in
      if parts = [] then Inl SortUsage
      else
        (let col_raw = hd parts;
             order = (if length parts > 1 then lower (parts ! 1) else ''asc'')
         in if order \<noteq> ''asc'' \<and> order \<noteq> ''desc'' then Inl BadOrder
            else
              (case cmap (columns df) (lower col_raw) of
                 None \<Rightarrow> Inl (UnknownColumn col_raw)
               | Some col \<Rightarrow> sort_values df col (order = ''asc''))))"

definition run_sort_m3 :: "frame \<Rightarrow> string \<Rightarrow> error + frame" where
  "run_sort_m3 df expr =
     (if strip expr = [] then Inl EmptyExpression
      else
        (let parts = tokens_of expr in
         if parts = [] then Inl IndexError
         else
           (let col_raw = hd parts;
                order = (if length parts > 1 then lower (parts ! 1) else ''asc'')
            in if order \<noteq> ''asc'' \<and> order \<noteq> ''desc'' then Inl BadOrder
               else
                 (case column_map (columns df) (lower col_raw) of
                    None \<Rightarrow> Inl (UnknownColumn col_raw)
                  | Some col \<Rightarrow> sort_values df col (order = ''asc'')))))"

text \<open>The value by which two cells of the sort column count as equal: none for a missing
  cell, else the number or the text.\<close>

definition sort_value :: "pyval \<Rightarrow> (rat + string) option" where
  "sort_value c =
     (if is_missing c then None
      else if is_number c then Some (Inl (num_key c))
      else Some (Inr (text_key c)))"

section \<open>Paginator: \<open>Pager\<close>, and the \<open>pagesize\<close> command of \<open>main\<close>\<close>

text \<open>
  The fields \<open>df\<close>, \<open>size\<close> and \<open>i\<close> of a \<open>Pager\<close>. \<open>//\<close> is floor division, as \<open>div\<close> on
  \<open>int\<close>, and ZeroDivisionError for a zero divisor. \<open>df.iloc[a:b]\<close> is a Python slice: a
  negative bound counts from the end, and both bounds are clipped to the row count.
\<close>

record pager =
  pager_df :: frame
  pager_size :: int
  pager_i :: int

definition Pager :: "frame \<Rightarrow> int \<Rightarrow> pager" where
  "Pager df sz = \<lparr>pager_df = df, pager_size = max 1 sz, pager_i = 1\<rparr>"

definition set_df :: "pager \<Rightarrow> frame \<Rightarrow> pager" where
  "set_df p df = p\<lparr>pager_df := df, pager_i := 1\<rparr>"

definition pages :: "pager \<Rightarrow> error + int" where
  "pages p =
     (if pager_size p = 0 then Inl ZeroDivisionError
      else Inr (max 1 ((int (length (rows (pager_df p))) - 1) div pager_size p + 1)))"

definition slice_bound :: "int \<Rightarrow> nat \<Rightarrow> nat" where
  "slice_bound k n = (if k < 0 then nat (max 0 (int n + k)) else min (nat k) n)"

definition iloc :: "frame \<Rightarrow> int \<Rightarrow> int \<Rightarrow> frame" where
  "iloc df a b =
     (let n = length (rows df); lo = slice_bound a n; hi = slice_bound b n
      in df\<lparr>rows := take (hi - lo) (drop lo (rows df))\<rparr>)"

definition view :: "pager \<Rightarrow> frame" where
  "view p =
     (let a = (pager_i p - 1) * pager_size p;
          b = a + pager_size p
      in iloc (pager_df p) a b)"

text \<open>The branch \<open>cmd == "pagesize"\<close> of the command loop: what is printed, and the pager
  afterwards. \<open>str.isdigit\<close> holds of a non-empty text of digits (\<open>0\<close>-\<open>9\<close> and the superscript
  digits 0xB2, 0xB3, 0xB9, which \<open>int\<close> does not read). A ValueError of \<open>int\<close> is
  caught by the loop, which prints it and goes on with the pager as it was.\<close>

datatype reply = Usage | PageSizeIs int | Warning

definition isdigit :: "string \<Rightarrow> bool" where
  "isdigit s = (s \<noteq> [] \<and> list_all (\<lambda>c. let n = (of_char c :: nat) in
       (48 \<le> n \<and> n \<le> 57) \<or> n = 178 \<or> n = 179 \<or> n = 185) s)"

definition main_pagesize :: "pylib \<Rightarrow> string \<Rightarrow> pager \<Rightarrow> reply \<times> pager" where
  "main_pagesize L arg p =
     (if \<not> isdigit arg then (Usage, p)
      else (case py_int L arg of
              None \<Rightarrow> (Warning, p)
            | Some n \<Rightarrow>
                (let p' = p\<lparr>pager_size := max 1 n, pager_i := 1\<rparr>
                 in (PageSizeIs (pager_size p'), p'))))"

section \<open>The selection a filter makes\<close>



section \<open>The meaning of a condition, in the words of the specification\<close>








section \<open>Instances for evaluation\<close>

text \<open>
  The theorems below hold for every library \<open>L\<close>. To evaluate the model on concrete inputs
  the parameters are instantiated with \<open>dec_lib\<close>, which reads decimal integers
  (an optional sign and ASCII digits, surrounding whitespace ignored) and nothing else;
  it is used only on inputs without floating-point text or pattern metacharacters.
\<close>

definition digit_val :: "char \<Rightarrow> nat option" where
  "digit_val c = (let n = (of_char c :: nat) in if 48 \<le> n \<and> n \<le> 57 then Some (n - 48) else None)"

fun dec_nat :: "nat \<Rightarrow> string \<Rightarrow> nat option" where
  "dec_nat acc [] = Some acc"
| "dec_nat acc (c # cs) =
     (case digit_val c of None \<Rightarrow> None | Some d \<Rightarrow> dec_nat (10 * acc + d) cs)"

definition dec_int :: "string \<Rightarrow> int option" where
  "dec_int s0 =
     (case strip s0 of
        [] \<Rightarrow> None
      | c # cs \<Rightarrow>
          if c = CHR ''-'' then (if cs = [] then None else map_option (\<lambda>n. - int n) (dec_nat 0 cs))
          else if c = CHR ''+'' then (if cs = [] then None else map_option int (dec_nat 0 cs))
          else map_option int (dec_nat 0 (c # cs)))"

definition dec_lib :: pylib where
  "dec_lib = \<lparr> py_int = dec_int,
               py_float = (\<lambda>s. None),
               pd_numeric = (\<lambda>s. case dec_int s of Some n \<Rightarrow> Num (of_int n) | None \<Rightarrow> NaN),
               float_str = (\<lambda>q. []),
               re_search = (\<lambda>p. None) \<rparr>"

text \<open>Three small tables: the staff table of the specification's scenarios, a table whose
  \<open>Age\<close> column holds text, one cell of it not a number, and a table of names with one
  missing cell.\<close>

definition staff :: frame where
  "staff = \<lparr>columns = [''Age'', ''Dept''],
            rows = [[PInt 20, PStr ''HR''], [PInt 30, PStr ''IT''], [PInt 40, PStr ''IT'']]\<rparr>"

definition survey :: frame where
  "survey = \<lparr>columns = [''Age''], rows = [[PStr ''31''], [PStr ''unknown'']]\<rparr>"

definition names :: frame where
  "names = \<lparr>columns = [''Name''],
            rows = [[PStr ''Ali''], [PFloat NaN], [PStr ''Bob'']]\<rparr>"



text \<open>The staff table sorted by \<open>Dept\<close> descending, and a pager on the second page of the
  staff table, two rows to a page.\<close>

definition staff_desc :: frame where
  "staff_desc = \<lparr>columns = [''Age'', ''Dept''],
            rows = [[PInt 30, PStr ''IT''], [PInt 40, PStr ''IT''], [PInt 20, PStr ''HR'']]\<rparr>"

definition staff_pager :: pager where
  "staff_pager = \<lparr>pager_df = staff, pager_size = 2, pager_i = 2\<rparr>"

section \<open>Properties\<close>

subsection \<open>The condition parser\<close>

lemma strip_Nil: "strip [] = []"
  by (simp add: strip_def)

text \<open>
  C7, as amended. Both parsers check the left side first: a token with an operator and an
  empty left side fails with the missing-column error whatever its right side. For a token
  in which an operator is found and whose left side is not empty after trimming, the parser
  fails with the missing-value error exactly when the trimmed right side is empty and the
  operator is not \<open>~\<close>; with \<open>~\<close> and an empty right side the condition is parsed, its
  value being the coercion of the empty text. \<open>parse_condition\<close> trims the token before it
  does the same.
\<close>

theorem parse_cond_missing_value:
  assumes "find_op OPS tok = Some (op, l, r)" and "strip l \<noteq> []" and "strip token = tok"
  shows "(parse_cond L tok = Inl MissingValue \<longleftrightarrow> strip r = [] \<and> op \<noteq> Contains)
       \<and> (parse_condition L token = Inl MissingValue \<longleftrightarrow> strip r = [] \<and> op \<noteq> Contains)
       \<and> (op = Contains \<and> strip r = [] \<longrightarrow>
            parse_cond L tok = Inr (strip l, Contains, to_val L [])
          \<and> parse_condition L token = Inr (strip l, Contains, coerce_value L []))"
  using assms by (auto simp: parse_cond_def parse_condition_def Let_def)

theorem parse_cond_missing_value_witness:
  "parse_cond dec_lib ''Age>='' = Inl MissingValue
 \<and> parse_condition dec_lib '' Age>= '' = Inl MissingValue
 \<and> parse_cond dec_lib ''Name~'' = Inr (''Name'', Contains, PStr [])
 \<and> parse_condition dec_lib '' Name~'' = Inr (''Name'', Contains, PStr [])"
proof -
  have a: "find_op OPS ''Age>='' = Some (Ge, ''Age'', [])"
    by (simp add: OPS_def)
  have b: "find_op OPS ''Name~'' = Some (Contains, ''Name'', [])"
    by (simp add: OPS_def)
  have s: "strip ''Age'' \<noteq> []" "strip ''Name'' \<noteq> []"
          "strip '' Age>= '' = ''Age>=''" "strip '' Name~'' = ''Name~''"
          "strip ''Name'' = ''Name''"
    by (simp_all add: strip_def is_space_def)
  have v: "to_val dec_lib [] = PStr []" "coerce_value dec_lib [] = PStr []"
    by (simp_all add: coerce_value_def to_val_def strip_def is_quoted_def lower_def
          py_number_def dec_lib_def dec_int_def)
  show ?thesis
    using parse_cond_missing_value [OF a s(1) s(3), of dec_lib]
          parse_cond_missing_value [OF b s(2) s(4), of dec_lib]
    by (simp add: strip_Nil s(5) v)
qed

text \<open>The claim as stated fails for a token with an empty left side: in \<open>>=\<close> the right side
  is empty and the operator is not \<open>~\<close>, yet the error is the missing-column one; and \<open>~\<close>
  alone, with an empty right side, is not accepted.\<close>

theorem parse_cond_empty_left_side:
  "find_op OPS ''>='' = Some (Ge, [], [])
 \<and> parse_cond dec_lib ''>='' = Inl MissingColumn
 \<and> parse_condition dec_lib ''>='' = Inl MissingColumn
 \<and> find_op OPS ''~'' = Some (Contains, [], [])
 \<and> parse_cond dec_lib ''~'' = Inl MissingColumn
 \<and> parse_condition dec_lib ''~'' = Inl MissingColumn"
  by code_simp

text \<open>A right side that holds only a no-break space is empty after trimming.\<close>

lemma parse_cond_no_break_space:
  "parse_cond dec_lib (''Age>='' @ [CHR 0xA0]) = Inl MissingValue"
  by code_simp

subsection \<open>The expression evaluator\<close>

lemma numeric_left:
  "(if is_numeric_dtype s then map num_of s else to_numeric L s) = map (to_num L) s"
proof -
  have "is_numeric_dtype s \<Longrightarrow> map num_of s = map (to_num L) s"
    by (induction s) (auto simp: is_numeric_dtype_def to_num_def split: pyval.splits)
  then show ?thesis by (simp add: to_numeric_def)
qed

lemma filter_zip_all_False: "filter snd (zip xs (replicate n False)) = []"
proof (induction xs arbitrary: n)
  case Nil
  show ?case by simp
next
  case (Cons x xs)
  show ?case by (cases n) (simp_all add: Cons.IH)
qed

lemma select_none: "rows (select_rows df (replicate (length (rows df)) False)) = []"
  by (simp add: select_rows_def filter_zip_all_False)

lemma num_cmp_NaN: "num_cmp op NaN y = (op = Ne)"
  by (cases y) simp_all

lemma staff_Age: "series staff ''Age'' = Some [PInt 20, PInt 30, PInt 40]"
  by code_simp

lemma abc_no_number: "py_number dec_lib ''abc'' = None"
  by code_simp

text \<open>
  C1, as amended. A comparison (\<open>==\<close>, \<open>!=\<close>, \<open>>\<close>, \<open>>=\<close>, \<open><\<close>, \<open><=\<close>) of a column with a
  text literal that is no number raises no error in either evaluator. \<open>apply_condition\<close>
  (milestone 3) returns the all-false mask, which selects no row. \<open>mask_for\<close> (milestone 4)
  compares the text of each cell with the literal instead. Both hold for every column,
  numeric ones included.
\<close>

theorem text_literal_on_numeric_column:
  assumes "series df col = Some s" and "op \<noteq> Contains" and "py_number L t = None"
  shows "apply_condition L df col op (PStr t) = Inr (replicate (length (rows df)) False)
       \<and> rows (select_rows df (replicate (length (rows df)) False)) = []
       \<and> mask_for L df col op (PStr t) = Inr (map (\<lambda>c. cmp_with op (py_str L c) t) s)"
  using assms
  by (simp add: apply_condition_def mask_for_def select_none astype_str_def Let_def)

theorem text_literal_on_numeric_column_witness:
  "apply_condition dec_lib staff ''Age'' Gt (PStr ''abc'') = Inr [False, False, False]
 \<and> mask_for dec_lib staff ''Age'' Gt (PStr ''abc'') = Inr [False, False, False]
 \<and> mask_for dec_lib staff ''Age'' Lt (PStr ''abc'') = Inr [True, True, True]"
proof -
  have n: "Gt \<noteq> Contains" "Lt \<noteq> Contains"
    by simp_all
  show ?thesis
    using text_literal_on_numeric_column [OF staff_Age n(1) abc_no_number]
          text_literal_on_numeric_column [OF staff_Age n(2) abc_no_number]
    by (simp add: staff_def int_str_def nat_str.simps digit_char_def)
qed

text \<open>The claim as stated fails for \<open>mask_for\<close>: on the numeric column \<open>Age\<close> the condition
  \<open>Age!=abc\<close>, whose literal is coerced to the text \<open>abc\<close>, selects every row.\<close>

theorem mask_for_text_literal_not_all_false:
  "is_numeric_dtype [PInt 20, PInt 30, PInt 40]
 \<and> series staff ''Age'' = Some [PInt 20, PInt 30, PInt 40]
 \<and> to_val dec_lib ''abc'' = PStr ''abc''
 \<and> mask_for dec_lib staff ''Age'' Ne (PStr ''abc'') = Inr [True, True, True]
 \<and> run_filter dec_lib staff ''Age!=abc'' = Inr staff"
  by code_simp

text \<open>
  C5, as amended. For a comparison with a numeric value, a cell of the column from which no
  number is read (its numeric reading is NaN) does not match \<open>==\<close>, \<open>>\<close>, \<open>>=\<close>, \<open><\<close> and
  \<open><=\<close>, and matches \<open>!=\<close>; neither evaluator raises.
\<close>

theorem unparsable_cell_mask:
  assumes "series df col = Some s" and "op \<noteq> Contains" and "is_number val"
    and "j < length s" and "to_num L (s ! j) = NaN"
  shows "(\<exists>m. mask_for L df col op val = Inr m \<and> length m = length s \<and> m ! j = (op = Ne))
       \<and> (\<exists>m. apply_condition L df col op val = Inr m \<and> length m = length s \<and> m ! j = (op = Ne))"
proof -
  have val: "val \<noteq> PNone" "\<And>t. val \<noteq> PStr t"
    using assms(3) by auto
  have m4: "mask_for L df col op val = Inr (map (\<lambda>x. num_cmp op x (num_of val)) (map (to_num L) s))"
    using assms(1-3) by (simp add: mask_for_def numeric_left Let_def)
  have m3: "apply_condition L df col op val = Inr (map (\<lambda>x. num_cmp op x (num_of val)) (map (to_num L) s))"
    using assms(1-3) val
    by (cases val) (simp_all add: apply_condition_def numeric_left compare_scalar_def Let_def)
  show ?thesis
    using assms(4,5) by (simp add: m4 m3 num_cmp_NaN)
qed

theorem unparsable_cell_mask_witness:
  "(\<exists>m. mask_for dec_lib survey ''Age'' Ge (PInt 30) = Inr m \<and> length m = 2 \<and> \<not> m ! 1)
 \<and> (\<exists>m. apply_condition dec_lib survey ''Age'' Ge (PInt 30) = Inr m \<and> length m = 2 \<and> \<not> m ! 1)"
proof -
  have a: "series survey ''Age'' = Some [PStr ''31'', PStr ''unknown'']"
    by code_simp
  have b: "Ge \<noteq> Contains" "is_number (PInt 30)" "(1::nat) < length [PStr ''31'', PStr ''unknown'']"
    by simp_all
  have c: "to_num dec_lib ([PStr ''31'', PStr ''unknown''] ! 1) = NaN"
    by code_simp
  show ?thesis
    using unparsable_cell_mask [OF a b c] by (simp add: numeral_2_eq_2)
qed

text \<open>The claim as stated fails for \<open>!=\<close>: the cell \<open>unknown\<close> is no number, and the condition
  \<open>Age!=30\<close> selects its row in both evaluators.\<close>

theorem unparsable_cell_matches_ne:
  "to_num dec_lib (PStr ''unknown'') = NaN
 \<and> mask_for dec_lib survey ''Age'' Ne (PInt 30) = Inr [True, True]
 \<and> apply_condition dec_lib survey ''Age'' Ne (PInt 30) = Inr [True, True]"
  by code_simp

text \<open>
  C6. The claim: \<open>~\<close> selects exactly the rows whose cell text contains the value's text,
  letter case ignored, and never a missing cell. The evaluators turn the column into text
  before the search, so a missing cell is searched as the text \<open>nan\<close>: in the table
  \<open>names\<close> the condition \<open>Name~a\<close> selects the row whose name is missing.
\<close>

theorem contains_selects_missing_cell:
  "mask_for dec_lib names ''Name'' Contains (PStr ''a'') = Inr [True, True, False]
 \<and> apply_condition dec_lib names ''Name'' Contains (PStr ''a'') = Inr [True, True, False]
 \<and> run_filter dec_lib names ''Name~a''
      = Inr \<lparr>columns = [''Name''], rows = [[PStr ''Ali''], [PFloat NaN]]\<rparr>"
  by code_simp

subsection \<open>The filter engine\<close>




























































text \<open>
  C8. The claim: an expression that leaves no condition after splitting on commas, trimming
  and dropping empty tokens fails with the empty-expression error. Milestone 3 checks only
  for an expression that is empty after trimming, and milestone 4 has no check: for the
  expression \<open>,\<close> both return the whole table, and so does milestone 4 for the empty and
  the blank expression.
\<close>

theorem run_filter_no_condition_returns_table:
  "tokens_of '','' = []
 \<and> run_filter dec_lib staff '','' = Inr staff
 \<and> run_filter_m3 dec_lib staff '','' = Inr staff
 \<and> run_filter dec_lib staff [] = Inr staff
 \<and> run_filter dec_lib staff ''  '' = Inr staff
 \<and> run_filter_m3 dec_lib staff ''  '' = Inl EmptyExpression"
  by code_simp

subsection \<open>The sort engine\<close>

lemma sorted_merge_key:
  "sorted (map f xs) \<Longrightarrow> sorted (map f ys) \<Longrightarrow> sorted (map f (merge_key f xs ys))"
proof (induction f xs ys rule: merge_key.induct)
  case (3 f x xs y ys)
  have set_merge: "set (merge_key f as bs) = set as \<union> set bs" for as bs
    by (induction f as bs rule: merge_key.induct) auto
  from 3 show ?case
    by (auto simp: set_merge)
qed simp_all

lemma set_merge_key: "set (merge_key f xs ys) = set xs \<union> set ys"
  by (induction f xs ys rule: merge_key.induct) auto

lemma sorted_msort_key: "sorted (map f (msort_key f xs))"
proof (induction f xs rule: msort_key.induct)
  case (1 f xs)
  show ?case
  proof (cases "length xs \<le> 1")
    case True
    then show ?thesis
      by (cases xs) (simp_all add: msort_key.simps)
  next
    case False
    with 1 show ?thesis
      by (simp add: msort_key.simps [of f xs] sorted_merge_key)
  qed
qed

lemma filter_merge_key:
  "sorted (map f xs) \<Longrightarrow>
   filter (\<lambda>r. f r = k) (merge_key f xs ys) = filter (\<lambda>r. f r = k) xs @ filter (\<lambda>r. f r = k) ys"
proof (induction f xs ys rule: merge_key.induct)
  case (3 f x xs y ys)
  show ?case
  proof (cases "f y < f x")
    case True
    have "filter (\<lambda>r. f r = k) (x # xs) = []" if "f y = k"
      using that True "3.prems" by (auto simp: filter_empty_conv)
    with True "3.IH"(1) "3.prems" show ?thesis
      by auto
  next
    case False
    with "3.IH"(2) "3.prems" show ?thesis
      by auto
  qed
qed simp_all

lemma msort_key_stable: "filter (\<lambda>r. f r = k) (msort_key f xs) = filter (\<lambda>r. f r = k) xs"
proof (induction f xs rule: msort_key.induct)
  case (1 f xs)
  show ?case
  proof (cases "length xs \<le> 1")
    case True
    then show ?thesis by (simp add: msort_key.simps)
  next
    case False
    let ?h = "length xs div 2"
    have "filter (\<lambda>r. f r = k) (msort_key f xs)
        = filter (\<lambda>r. f r = k) (msort_key f (take ?h xs)) @ filter (\<lambda>r. f r = k) (msort_key f (drop ?h xs))"
      using False by (simp add: msort_key.simps [of f xs] filter_merge_key sorted_msort_key)
    also have "\<dots> = filter (\<lambda>r. f r = k) (take ?h xs) @ filter (\<lambda>r. f r = k) (drop ?h xs)"
      using False 1 by simp
    also have "\<dots> = filter (\<lambda>r. f r = k) (take ?h xs @ drop ?h xs)"
      by (simp only: filter_append)
    finally show ?thesis by simp
  qed
qed

lemma order_by_stable: "filter (\<lambda>r. f r = k) (order_by f asc xs) = filter (\<lambda>r. f r = k) xs"
  by (simp add: order_by_def msort_key_stable rev_filter [symmetric])


lemma set_msort_key: "set (msort_key f xs) = set xs"
proof (induction f xs rule: msort_key.induct)
  case (1 f xs)
  show ?case
  proof (cases "length xs \<le> 1")
    case True
    then show ?thesis by (simp add: msort_key.simps)
  next
    case False
    let ?h = "length xs div 2"
    have "set (msort_key f xs) = set (take ?h xs) \<union> set (drop ?h xs)"
      using False 1 by (simp add: msort_key.simps [of f xs] set_merge_key)
    also have "\<dots> = set (take ?h xs @ drop ?h xs)"
      by (simp only: set_append)
    finally show ?thesis by simp
  qed
qed

lemma set_order_by: "set (order_by f asc xs) = set xs"
  by (simp add: order_by_def set_msort_key)

lemma order_by_stable_on:
  assumes "\<forall>r\<in>set xs. P r \<longleftrightarrow> f r = q"
  shows "filter P (order_by f asc xs) = filter P xs"
proof -
  have "filter P (order_by f asc xs) = filter (\<lambda>r. f r = q) (order_by f asc xs)"
    using assms by (intro filter_cong) (simp_all add: set_order_by)
  also have "\<dots> = filter (\<lambda>r. f r = q) xs"
    by (rule order_by_stable)
  also have "\<dots> = filter P xs"
    using assms by (intro filter_cong) simp_all
  finally show ?thesis .
qed

lemma order_by_none:
  assumes "\<forall>r\<in>set xs. \<not> P r"
  shows "filter P (order_by f asc xs) = filter P xs"
  using assms by (simp add: filter_empty_conv set_order_by)

lemma num_key_sort_value:
  "\<not> is_missing c \<Longrightarrow> is_number c \<Longrightarrow> sort_value c = Some (Inl (num_key c))"
  by (simp add: sort_value_def)

lemma text_key_sort_value:
  "\<not> is_missing c \<Longrightarrow> is_text c \<Longrightarrow> sort_value c = Some (Inr (text_key c))"
  by (cases c) (simp_all add: sort_value_def)

lemma sort_value_None: "sort_value c = None \<longleftrightarrow> is_missing c"
  by (simp add: sort_value_def)

lemma filter_sorted_rows:
  assumes "\<forall>r\<in>set xs. \<not> is_missing (g r)" and "\<forall>r\<in>set ys. is_missing (g r)"
    and "\<forall>r\<in>set xs. sort_value (g r) = Some (c (f r))" and "inj c"
  shows "filter (\<lambda>r. sort_value (g r) = k) (order_by f asc xs @ ys)
       = filter (\<lambda>r. sort_value (g r) = k) (xs @ ys)"
proof (cases "\<exists>q. k = Some (c q)")
  case True
  then obtain q where k: "k = Some (c q)" by blast
  have "\<forall>r\<in>set xs. (sort_value (g r) = k) \<longleftrightarrow> f r = q"
    using assms(3,4) by (auto simp: k dest: injD)
  from order_by_stable_on [OF this] show ?thesis
    by simp
next
  case False
  then have "\<forall>r\<in>set xs. \<not> sort_value (g r) = k"
    using assms(3) by auto
  from order_by_none [OF this] show ?thesis
    by simp
qed

lemma partition_missing:
  "filter (\<lambda>r. sort_value (g r) = k) (filter (\<lambda>r. \<not> is_missing (g r)) xs @ filter (\<lambda>r. is_missing (g r)) xs)
 = filter (\<lambda>r. sort_value (g r) = k) xs"
proof (cases k)
  case None
  have "filter (\<lambda>r. sort_value (g r) = None) (filter (\<lambda>r. \<not> is_missing (g r)) xs) = []"
    by (simp add: filter_empty_conv sort_value_None)
  moreover have "filter (\<lambda>r. sort_value (g r) = None) (filter (\<lambda>r. is_missing (g r)) xs)
      = filter (\<lambda>r. sort_value (g r) = None) xs"
    by (auto simp: sort_value_None intro: filter_cong)
  ultimately show ?thesis by (simp add: None)
next
  case (Some v)
  have "filter (\<lambda>r. sort_value (g r) = Some v) (filter (\<lambda>r. is_missing (g r)) xs) = []"
    by (auto simp: filter_empty_conv sort_value_None [symmetric])
  moreover have "filter (\<lambda>r. sort_value (g r) = Some v) (filter (\<lambda>r. \<not> is_missing (g r)) xs)
      = filter (\<lambda>r. sort_value (g r) = Some v) xs"
    by (auto simp: sort_value_None [symmetric] intro: filter_cong)
  ultimately show ?thesis by (simp add: Some)
qed

lemma sort_values_stable:
  assumes "sort_values df col asc = Inr out"
  shows "\<exists>j. col_index (columns df) col = Some j \<and> columns out = columns df
           \<and> (\<forall>k. filter (\<lambda>r. sort_value (cell_at r j) = k) (rows out)
                  = filter (\<lambda>r. sort_value (cell_at r j) = k) (rows df))"
proof -
  from assms obtain j where j: "col_index (columns df) col = Some j"
    by (auto simp: sort_values_def split: option.splits)
  let ?g = "\<lambda>r. cell_at r j"
  let ?present = "filter (\<lambda>r. \<not> is_missing (?g r)) (rows df)"
  let ?missing = "filter (\<lambda>r. is_missing (?g r)) (rows df)"
  have p: "\<forall>r\<in>set ?present. \<not> is_missing (?g r)" and m: "\<forall>r\<in>set ?missing. is_missing (?g r)"
    by simp_all
  consider (num) "list_all (\<lambda>r. is_number (?g r)) ?present
        \<and> out = df\<lparr>rows := order_by (\<lambda>r. num_key (?g r)) asc ?present @ ?missing\<rparr>"
    | (strs) "list_all (\<lambda>r. is_text (?g r)) ?present
        \<and> out = df\<lparr>rows := order_by (\<lambda>r. text_key (?g r)) asc ?present @ ?missing\<rparr>"
    using assms by (auto simp: sort_values_def j Let_def split: if_splits)
  then have "columns out = columns df \<and> (\<forall>k. filter (\<lambda>r. sort_value (?g r) = k) (rows out)
                  = filter (\<lambda>r. sort_value (?g r) = k) (?present @ ?missing))"
  proof cases
    case num
    have "\<forall>r\<in>set ?present. sort_value (?g r) = Some (Inl (num_key (?g r)))"
      using num by (auto simp: list_all_iff num_key_sort_value)
    from filter_sorted_rows [OF p m this inj_Inl, where asc = asc] show ?thesis
      using num by simp
  next
    case strs
    have "\<forall>r\<in>set ?present. sort_value (?g r) = Some (Inr (text_key (?g r)))"
      using strs by (auto simp: list_all_iff text_key_sort_value)
    from filter_sorted_rows [OF p m this inj_Inr, where asc = asc] show ?thesis
      using strs by simp
  qed
  then show ?thesis
    using j by (simp only: partition_missing) simp
qed


text \<open>
  C3. When \<open>run_sort\<close> returns a table, the first part of the expression resolves to a
  column of the input, the columns are unchanged, and for every value the rows whose cell
  in that column has this value (all rows with a missing cell counting as one group) are
  the same and in the same order before and after: rows with equal values keep their
  relative order. This holds for both directions, which the expression chooses, and in
  both milestones.
\<close>

theorem run_sort_stable:
  "(run_sort df expr = Inr out \<longrightarrow>
      (\<exists>c j. cmap (columns df) (lower (hd (tokens_of expr))) = Some c
           \<and> col_index (columns df) c = Some j
           \<and> columns out = columns df
           \<and> (\<forall>k. filter (\<lambda>r. sort_value (cell_at r j) = k) (rows out)
                  = filter (\<lambda>r. sort_value (cell_at r j) = k) (rows df))))
 \<and> (run_sort_m3 df expr = Inr out \<longrightarrow>
      (\<exists>c j. column_map (columns df) (lower (hd (tokens_of expr))) = Some c
           \<and> col_index (columns df) c = Some j
           \<and> columns out = columns df
           \<and> (\<forall>k. filter (\<lambda>r. sort_value (cell_at r j) = k) (rows out)
                  = filter (\<lambda>r. sort_value (cell_at r j) = k) (rows df))))"
proof (intro conjI impI)
  assume "run_sort df expr = Inr out"
  then obtain c asc where "cmap (columns df) (lower (hd (tokens_of expr))) = Some c"
    and "sort_values df c asc = Inr out"
    by (auto simp: run_sort_def Let_def split: if_splits option.splits)
  with sort_values_stable [of df c asc out]
  show "\<exists>c j. cmap (columns df) (lower (hd (tokens_of expr))) = Some c
           \<and> col_index (columns df) c = Some j
           \<and> columns out = columns df
           \<and> (\<forall>k. filter (\<lambda>r. sort_value (cell_at r j) = k) (rows out)
                  = filter (\<lambda>r. sort_value (cell_at r j) = k) (rows df))"
    by blast
next
  assume "run_sort_m3 df expr = Inr out"
  then obtain c asc where "column_map (columns df) (lower (hd (tokens_of expr))) = Some c"
    and "sort_values df c asc = Inr out"
    by (auto simp: run_sort_m3_def Let_def split: if_splits option.splits)
  with sort_values_stable [of df c asc out]
  show "\<exists>c j. column_map (columns df) (lower (hd (tokens_of expr))) = Some c
           \<and> col_index (columns df) c = Some j
           \<and> columns out = columns df
           \<and> (\<forall>k. filter (\<lambda>r. sort_value (cell_at r j) = k) (rows out)
                  = filter (\<lambda>r. sort_value (cell_at r j) = k) (rows df))"
    by blast
qed

lemma staff_sorted_asc: "run_sort_m3 staff ''dept'' = Inr staff"
  by code_simp

lemma staff_sorted_desc: "run_sort staff ''Dept,desc'' = Inr staff_desc"
  by code_simp

theorem run_sort_stable_witness:
  "(\<exists>c j. cmap (columns staff) (lower (hd (tokens_of ''Dept,desc''))) = Some c
       \<and> col_index (columns staff) c = Some j
       \<and> columns staff_desc = columns staff
       \<and> (\<forall>k. filter (\<lambda>r. sort_value (cell_at r j) = k) (rows staff_desc)
              = filter (\<lambda>r. sort_value (cell_at r j) = k) (rows staff)))
 \<and> (\<exists>c j. column_map (columns staff) (lower (hd (tokens_of ''dept''))) = Some c
       \<and> col_index (columns staff) c = Some j
       \<and> columns staff = columns staff
       \<and> (\<forall>k. filter (\<lambda>r. sort_value (cell_at r j) = k) (rows staff)
              = filter (\<lambda>r. sort_value (cell_at r j) = k) (rows staff)))"
proof (rule conjI)
  show "\<exists>c j. cmap (columns staff) (lower (hd (tokens_of ''Dept,desc''))) = Some c
       \<and> col_index (columns staff) c = Some j
       \<and> columns staff_desc = columns staff
       \<and> (\<forall>k. filter (\<lambda>r. sort_value (cell_at r j) = k) (rows staff_desc)
              = filter (\<lambda>r. sort_value (cell_at r j) = k) (rows staff))"
    by (rule mp [OF conjunct1 [OF run_sort_stable] staff_sorted_desc])
  show "\<exists>c j. column_map (columns staff) (lower (hd (tokens_of ''dept''))) = Some c
       \<and> col_index (columns staff) c = Some j
       \<and> columns staff = columns staff
       \<and> (\<forall>k. filter (\<lambda>r. sort_value (cell_at r j) = k) (rows staff)
              = filter (\<lambda>r. sort_value (cell_at r j) = k) (rows staff))"
    by (rule mp [OF conjunct2 [OF run_sort_stable] staff_sorted_asc])
qed

subsection \<open>The paginator\<close>

lemma pages_arith:
  fixes n s :: int
  assumes "1 \<le> s"
  shows "(n - 1) div s + 1 = \<lceil>(of_int n :: rat) / of_int s\<rceil>"
proof -
  define q where "q = (n - 1) div s"
  define r where "r = (n - 1) mod s"
  have r: "0 \<le> r" "r < s"
    using assms by (simp_all add: r_def)
  have "n - 1 = s * q + r"
    by (simp add: q_def r_def)
  then have "- n = s * (- (q + 1)) + (s - 1 - r)"
    by (simp add: algebra_simps)
  then have "(- n) div s = - (q + 1)"
    using r by (intro int_div_pos_eq [of "- n" s "- (q + 1)" "s - 1 - r"]) simp_all
  moreover have "\<lceil>(of_int n :: rat) / of_int s\<rceil> = - ((- n) div s)"
    by (rule ceiling_divide_eq_div)
  ultimately show ?thesis
    by (simp add: q_def)
qed

lemma slice_window:
  assumes "0 \<le> a" and "0 \<le> sz" and that: "n = length xs"
  shows "take (slice_bound (a + sz) n - slice_bound a n) (drop (slice_bound a n) xs)
       = take (nat sz) (drop (nat a) xs)"
proof (cases "nat a < n")
  case True
  have "slice_bound (a + sz) n - slice_bound a n = min (nat sz) (length (drop (nat a) xs))"
    using assms True that by (auto simp: slice_bound_def min_def)
  then show ?thesis
    using assms True by (simp add: slice_bound_def min_def)
next
  case False
  then show ?thesis
    using assms that by (simp add: slice_bound_def)
qed

text \<open>The size and the page of a pager are at least 1 when it is made, and stay so when a
  table is bound and when the page size is set.\<close>

lemma pager_bounds:
  "1 \<le> pager_size (Pager df sz) \<and> 1 \<le> pager_i (Pager df sz)"
  "1 \<le> pager_size p \<Longrightarrow> 1 \<le> pager_size (set_df p df) \<and> 1 \<le> pager_i (set_df p df)"
  "1 \<le> pager_size p \<Longrightarrow> 1 \<le> pager_i p \<Longrightarrow>
     1 \<le> pager_size (snd (main_pagesize L arg p)) \<and> 1 \<le> pager_i (snd (main_pagesize L arg p))"
  by (simp_all add: Pager_def set_df_def main_pagesize_def Let_def split: option.splits)

text \<open>
  C4. For a pager with page size at least 1 and current page at least 1, over a table of any
  row count: the page count is \<open>max(1, ceil(row_count / size))\<close>; \<open>view()\<close> has the columns
  of the table and at most \<open>size\<close> rows, namely the rows of the table from index
  \<open>(page - 1) * size\<close> on, up to \<open>size\<close> of them, each at an index below the row count.
\<close>

theorem pager_pages_view:
  assumes "1 \<le> pager_size p" and "1 \<le> pager_i p"
  shows "pages p = Inr (max 1 \<lceil>(of_int (int (length (rows (pager_df p)))) :: rat) / of_int (pager_size p)\<rceil>)
       \<and> columns (view p) = columns (pager_df p)
       \<and> length (rows (view p)) \<le> nat (pager_size p)
       \<and> rows (view p) = take (nat (pager_size p)) (drop (nat ((pager_i p - 1) * pager_size p)) (rows (pager_df p)))
       \<and> (\<forall>k<length (rows (view p)).
             nat ((pager_i p - 1) * pager_size p) + k < length (rows (pager_df p))
           \<and> rows (view p) ! k = rows (pager_df p) ! (nat ((pager_i p - 1) * pager_size p) + k))"
proof -
  let ?xs = "rows (pager_df p)"
  let ?a = "(pager_i p - 1) * pager_size p"
  have a: "0 \<le> ?a" and s: "0 \<le> pager_size p"
    using assms by simp_all
  have v: "rows (view p) = take (nat (pager_size p)) (drop (nat ?a) ?xs)"
    using slice_window [OF a s refl, of ?xs] by (simp add: view_def iloc_def Let_def)
  have pg: "pages p = Inr (max 1 \<lceil>(of_int (int (length ?xs)) :: rat) / of_int (pager_size p)\<rceil>)"
    using assms(1) pages_arith [OF assms(1), of "int (length ?xs)"] by (simp add: pages_def)
  have c: "columns (view p) = columns (pager_df p)"
    by (simp add: view_def iloc_def Let_def)
  have len: "length (rows (view p)) \<le> nat (pager_size p)"
    by (simp add: v)
  have idx: "\<forall>k<length (rows (view p)).
             nat ?a + k < length ?xs \<and> rows (view p) ! k = ?xs ! (nat ?a + k)"
  proof (intro allI impI)
    fix k
    assume "k < length (rows (view p))"
    then have "k < length ?xs - nat ?a" and "k < nat (pager_size p)"
      by (simp_all add: v)
    then show "nat ?a + k < length ?xs \<and> rows (view p) ! k = ?xs ! (nat ?a + k)"
      by (simp add: v)
  qed
  from pg c len v idx show ?thesis
    by blast
qed

theorem pager_pages_view_witness:
  "pages staff_pager = Inr 2 \<and> rows (view staff_pager) = [[PInt 40, PStr ''IT'']]
 \<and> pages (Pager \<lparr>columns = [''Age''], rows = []\<rparr> 5) = Inr 1
 \<and> rows (view (Pager \<lparr>columns = [''Age''], rows = []\<rparr> 5)) = []"
proof -
  have a: "1 \<le> pager_size staff_pager" "1 \<le> pager_i staff_pager"
    by (simp_all add: staff_pager_def)
  have b: "1 \<le> pager_size (Pager \<lparr>columns = [''Age''], rows = []\<rparr> 5)"
    "1 \<le> pager_i (Pager \<lparr>columns = [''Age''], rows = []\<rparr> 5)"
    by (simp_all add: Pager_def)
  have c: "\<lceil>(3::rat) / 2\<rceil> = 2" "\<lceil>(0::rat) / 5\<rceil> = 0"
    by (simp_all add: ceiling_divide_eq_div [of 3 2, simplified])
  show ?thesis
    using pager_pages_view [OF a] pager_pages_view [OF b]
    by (simp add: staff_pager_def staff_def Pager_def c)
qed

text \<open>
  C9, as amended. The \<open>pagesize\<close> command does not fail on a number below 1. An argument
  that is not all digits (any negative number) prints the usage line and leaves the pager
  as it was. An argument of digits that \<open>int\<close> reads as \<open>n\<close> sets the size to
  \<open>max(1, n)\<close>, which is \<open>n\<close> when \<open>n \<ge> 1\<close> and 1 when \<open>n = 0\<close>, and the page to 1.
  The constructor \<open>Pager\<close> clamps its size the same way.
\<close>

theorem pagesize_clamps:
  "(\<not> isdigit arg \<longrightarrow> main_pagesize L arg p = (Usage, p))
 \<and> (isdigit arg \<and> py_int L arg = Some n \<longrightarrow>
       main_pagesize L arg p = (PageSizeIs (max 1 n), p\<lparr>pager_size := max 1 n, pager_i := 1\<rparr>)
     \<and> (1 \<le> n \<longrightarrow> pager_size (snd (main_pagesize L arg p)) = n)
     \<and> pager_i (snd (main_pagesize L arg p)) = 1)
 \<and> pager_size (Pager df n) = max 1 n \<and> pager_i (Pager df n) = 1"
  by (simp add: main_pagesize_def Pager_def)

theorem pagesize_clamps_witness:
  "main_pagesize dec_lib ''3'' staff_pager = (PageSizeIs 3, \<lparr>pager_df = staff, pager_size = 3, pager_i = 1\<rparr>)
 \<and> main_pagesize dec_lib ''-3'' staff_pager = (Usage, staff_pager)"
proof -
  have a: "isdigit ''3''" "py_int dec_lib ''3'' = Some 3" "\<not> isdigit ''-3''"
    by code_simp+
  show ?thesis
    using pagesize_clamps [of "''3''" dec_lib staff_pager 3]
          pagesize_clamps [of "''-3''" dec_lib staff_pager]
    by (simp add: a staff_pager_def)
qed

text \<open>The claim as stated fails at \<open>n = 0\<close>: \<open>pagesize 0\<close> is accepted, and sets the size
  to 1.\<close>

theorem pagesize_zero_no_error:
  "isdigit ''0'' \<and> py_int dec_lib ''0'' = Some 0
 \<and> main_pagesize dec_lib ''0'' staff_pager
      = (PageSizeIs 1, \<lparr>pager_df = staff, pager_size = 1, pager_i = 1\<rparr>)
 \<and> pager_size (Pager staff 0) = 1"
  by code_simp

end
